theory Spec2Isabelle
  imports Main "HOL-Library.Word"
begin

section \<open>PiFrame download subsystem (src/client/main.c)\<close>

text \<open>
  The download subsystem of \<^verbatim>\<open>main.c\<close>: \<^verbatim>\<open>DownloadNew\<close>, the periodic poller
  \<^verbatim>\<open>onDownloadQueuePoll\<close>, the worker \<^verbatim>\<open>curlThread\<close> and its libcurl write callback
  \<^verbatim>\<open>onCURLDownloadSegment\<close>, over the global \<^verbatim>\<open>gDownload\<close>.

  Pointers are natural numbers, \<open>0\<close> is the null pointer. \<^verbatim>\<open>malloc\<close> hands out the
  next unused number, so a pointer value names one allocation (an allocation identity:
  the C allocator may hand a freed block's address out again, the model does not).
  \<^verbatim>\<open>size_t\<close> is 32 bits wide, as on the Raspberry Pi the program is written for, and
  so is \<^verbatim>\<open>unsigned int\<close>; arithmetic on both wraps around. The \<^verbatim>\<open>int\<close> fields
  (\<open>result\<close>, \<open>outstandingProgressItems\<close>) are integers: their values stay far from the
  limits of 32 bits.

  The heap of \<^verbatim>\<open>Download\<close> structs is a total function from pointers: \<^verbatim>\<open>free\<close> is
  recorded as an event and leaves the contents in place. The program reads a
  \<^verbatim>\<open>Download\<close> only through pointers that \<^verbatim>\<open>DownloadNew\<close> returned and that are not
  yet freed.
\<close>

subsection \<open>Data\<close>

type_synonym ptr = nat
type_synonym size_t = "32 word"

text \<open>
  \<^verbatim>\<open>char const* url\<close> is the pointer (\<open>url_addr\<close>) and the characters it points to
  (\<open>url\<close>); function pointers and the opaque \<^verbatim>\<open>context\<close> are pointers.
\<close>

record DownloadOptions =
  url_addr :: ptr
  url :: string
  progressCallback :: ptr
  completeCallback :: ptr
  "context" :: ptr

text \<open>
  A \<^verbatim>\<open>DownloadProgressItem\<close> has one owner at a time (the download's current slot, then
  a queue), so it is carried by value; \<open>item_addr\<close> is the address \<^verbatim>\<open>malloc\<close> gave the
  struct, \<open>chunk\<close> the address of its \<^verbatim>\<open>kMaxChunksize\<close>-byte buffer.
\<close>

record DownloadProgressItem =
  item_addr :: ptr
  item_context :: ptr
  chunk :: ptr
  item_length :: size_t
  item_bytesExpected :: size_t
  item_bytesLoaded :: size_t

record Download =
  options :: DownloadOptions
  result :: int
  reason :: "string option"
  bytesExpected :: size_t
  bytesLoaded :: size_t
  currentProgressItem :: "DownloadProgressItem option"
  outstandingProgressItems :: int

text \<open>
  What the subsystem does to the world outside its own fields, in program order:
  allocator calls (the address, and for \<^verbatim>\<open>malloc\<close> the size asked for), the bytes
  \<^verbatim>\<open>memcpy\<close> moves (destination buffer, offset in it, offset in the segment libcurl
  handed over, byte count), queue pushes, the timer registration, the blocking libcurl
  call (its start, and its end with the \<^verbatim>\<open>CURLcode\<close>), and the callbacks of the client
  with their arguments. The callbacks are the client's code: the model records the call
  and does not follow it.
\<close>

datatype event =
    Malloc ptr nat
  | Free ptr
  | Memcpy ptr size_t size_t size_t
  | PushJob ptr
  | PushResult ptr
  | PushProgress DownloadProgressItem
  | PushRecycle DownloadProgressItem
  | TimeoutAdd nat
  | PerformStart ptr
  | PerformEnd ptr int
  | ProgressCallback ptr ptr size_t size_t size_t
  | CompleteCallback ptr int "string option"

text \<open>
  \<^verbatim>\<open>gDownload\<close> with the heap of \<^verbatim>\<open>Download\<close> structs (\<open>mem\<close>), the allocator's
  state (\<open>brk\<close>) and the events so far (\<open>trace\<close>).
\<close>

record gDownload =
  jobQueue :: "ptr list"
  resultsQueue :: "ptr list"
  progressQueue :: "DownloadProgressItem list"
  progressRecycleQueue :: "DownloadProgressItem list"
  count :: "32 word"
  mem :: "ptr \<Rightarrow> Download"
  brk :: ptr
  trace :: "event list"

definition emit :: "event \<Rightarrow> gDownload \<Rightarrow> gDownload" where
  "emit e s = s\<lparr>trace := trace s @ [e]\<rparr>"

text \<open>
  \<open>brk\<close> is the last address handed out, so \<^verbatim>\<open>malloc\<close> never returns null: the program
  does not check for it, and running out of memory is outside the model.
\<close>

definition malloc :: "nat \<Rightarrow> gDownload \<Rightarrow> ptr \<times> gDownload" where
  "malloc n s = (brk s + 1, emit (Malloc (brk s + 1) n) (s\<lparr>brk := brk s + 1\<rparr>))"

text \<open>\<^verbatim>\<open>sizeof\<close> of the two structs with 4-byte pointers, \<^verbatim>\<open>int\<close> and \<^verbatim>\<open>size_t\<close>.\<close>

definition sizeof_Download :: nat where
  "sizeof_Download = 40"

definition sizeof_DownloadProgressItem :: nat where
  "sizeof_DownloadProgressItem = 20"

definition free :: "ptr \<Rightarrow> gDownload \<Rightarrow> gDownload" where
  "free p s = emit (Free p) s"

definition modify :: "ptr \<Rightarrow> (Download \<Rightarrow> Download) \<Rightarrow> gDownload \<Rightarrow> gDownload" where
  "modify d f s = s\<lparr>mem := (mem s)(d := f (mem s d))\<rparr>"

lemma emit_fields [simp]:
  "jobQueue (emit e s) = jobQueue s"
  "resultsQueue (emit e s) = resultsQueue s"
  "progressQueue (emit e s) = progressQueue s"
  "progressRecycleQueue (emit e s) = progressRecycleQueue s"
  "count (emit e s) = count s"
  "mem (emit e s) = mem s"
  "brk (emit e s) = brk s"
  "trace (emit e s) = trace s @ [e]"
  by (simp_all add: emit_def)

lemma modify_fields [simp]:
  "jobQueue (modify d f s) = jobQueue s"
  "resultsQueue (modify d f s) = resultsQueue s"
  "progressQueue (modify d f s) = progressQueue s"
  "progressRecycleQueue (modify d f s) = progressRecycleQueue s"
  "count (modify d f s) = count s"
  "mem (modify d f s) = (mem s)(d := f (mem s d))"
  "brk (modify d f s) = brk s"
  "trace (modify d f s) = trace s"
  by (simp_all add: modify_def)

subsection \<open>GAsyncQueue\<close>

text \<open>
  A queue is the list of its items, head first. \<^verbatim>\<open>g_async_queue_push\<close> appends and
  refuses a null item; \<^verbatim>\<open>g_async_queue_try_pop\<close> takes the head or returns null.
\<close>

definition g_async_queue_push :: "ptr list \<Rightarrow> ptr \<Rightarrow> ptr list" where
  "g_async_queue_push q item = (if item = 0 then q else q @ [item])"

definition g_async_queue_try_pop :: "'a list \<Rightarrow> ('a \<times> 'a list) option" where
  "g_async_queue_try_pop q = (case q of [] \<Rightarrow> None | x # q' \<Rightarrow> Some (x, q'))"

text \<open>
  \<^verbatim>\<open>g_async_queue_push_front\<close> puts the item where the next pop takes it: the head of
  the list. With GLib older than 2.46 the program compiles its own copy of GLib's
  function; it calls \<^verbatim>\<open>g_queue_push_tail\<close> on the queue's \<^verbatim>\<open>GQueue\<close>, and the tail of
  that \<^verbatim>\<open>GQueue\<close> is the end the pops of a \<^verbatim>\<open>GAsyncQueue\<close> take from (a plain push
  goes to its head), so both builds insert at the front.
\<close>

definition g_async_queue_push_front :: "ptr list \<Rightarrow> ptr \<Rightarrow> ptr list" where
  "g_async_queue_push_front q item = (if item = 0 then q else item # q)"

subsection \<open>Worker: chunking the segments\<close>

definition kMaxChunksize :: size_t where
  "kMaxChunksize = 128 * 1024"

definition MIN_macro :: "size_t \<Rightarrow> size_t \<Rightarrow> size_t" where
  "MIN_macro a b = (if a < b then a else b)"

fun downloadRecycleProgressItems_loop :: "DownloadProgressItem list \<Rightarrow> gDownload \<Rightarrow> gDownload" where
  "downloadRecycleProgressItems_loop [] s = s"
| "downloadRecycleProgressItems_loop (progressItem # q) s =
     downloadRecycleProgressItems_loop q (free (item_addr progressItem) (free (chunk progressItem) s))"

definition downloadRecycleProgressItems :: "gDownload \<Rightarrow> gDownload" where
  "downloadRecycleProgressItems s =
     downloadRecycleProgressItems_loop (progressRecycleQueue s) (s\<lparr>progressRecycleQueue := []\<rparr>)"

text \<open>The events of recycling: every queued item has its buffer and its record freed.\<close>

fun frees :: "DownloadProgressItem list \<Rightarrow> event list" where
  "frees [] = []"
| "frees (progressItem # q) = Free (chunk progressItem) # Free (item_addr progressItem) # frees q"

lemma recycle_loop_trace:
  "trace (downloadRecycleProgressItems_loop q s) = trace s @ frees q"
  by (induction q arbitrary: s) (simp_all add: free_def)

lemma recycle_loop_fields:
  "jobQueue (downloadRecycleProgressItems_loop q s) = jobQueue s"
  "resultsQueue (downloadRecycleProgressItems_loop q s) = resultsQueue s"
  "progressQueue (downloadRecycleProgressItems_loop q s) = progressQueue s"
  "progressRecycleQueue (downloadRecycleProgressItems_loop q s) = progressRecycleQueue s"
  "count (downloadRecycleProgressItems_loop q s) = count s"
  "mem (downloadRecycleProgressItems_loop q s) = mem s"
  "brk (downloadRecycleProgressItems_loop q s) = brk s"
  by (induction q arbitrary: s) (simp_all add: free_def)

lemma recycle_fields [simp]:
  "jobQueue (downloadRecycleProgressItems s) = jobQueue s"
  "resultsQueue (downloadRecycleProgressItems s) = resultsQueue s"
  "progressQueue (downloadRecycleProgressItems s) = progressQueue s"
  "progressRecycleQueue (downloadRecycleProgressItems s) = []"
  "count (downloadRecycleProgressItems s) = count s"
  "mem (downloadRecycleProgressItems s) = mem s"
  "brk (downloadRecycleProgressItems s) = brk s"
  "trace (downloadRecycleProgressItems s) = trace s @ frees (progressRecycleQueue s)"
  by (simp_all add: downloadRecycleProgressItems_def recycle_loop_fields recycle_loop_trace)

text \<open>
  \<^verbatim>\<open>downloadPushProgressItem\<close>; its closing \<^verbatim>\<open>g_thread_yield()\<close> changes nothing in the
  state.
\<close>

definition downloadPushProgressItem :: "ptr \<Rightarrow> gDownload \<Rightarrow> gDownload" where
  "downloadPushProgressItem d s =
     (case currentProgressItem (mem s d) of
        None \<Rightarrow> s
      | Some cur \<Rightarrow>
          let item = cur\<lparr>item_bytesExpected := bytesExpected (mem s d),
                         item_bytesLoaded := bytesLoaded (mem s d),
                         item_context := d\<rparr>;
              s1 = modify d (\<lambda>x. x\<lparr>outstandingProgressItems := outstandingProgressItems x + 1\<rparr>) s;
              s2 = emit (PushProgress item) (s1\<lparr>progressQueue := progressQueue s1 @ [item]\<rparr>)
          in modify d (\<lambda>x. x\<lparr>currentProgressItem := None\<rparr>) s2)"

text \<open>
  One pass through the body of \<^verbatim>\<open>while(segmentLength > 0)\<close>. The loop variables are the
  remaining \<open>segmentLength\<close> and the read position \<open>segment\<close>, an offset from the start
  of the segment.
\<close>

definition segment_fill :: "ptr \<Rightarrow> size_t \<times> size_t \<times> gDownload \<Rightarrow> size_t \<times> size_t \<times> gDownload" where
  "segment_fill d c =
     (case c of (segmentLength, segment, s) \<Rightarrow>
        (case currentProgressItem (mem s d) of
           None \<Rightarrow> c
         | Some cur \<Rightarrow>
             let chunkSize = MIN_macro (kMaxChunksize - item_length cur) segmentLength;
                 s1 = emit (Memcpy (chunk cur) (item_length cur) segment chunkSize) s;
                 cur' = cur\<lparr>item_length := item_length cur + segmentLength\<rparr>;
                 s2 = modify d (\<lambda>x. x\<lparr>currentProgressItem := Some cur',
                                         bytesLoaded := bytesLoaded x + chunkSize\<rparr>) s1;
                 segmentLength' = segmentLength - chunkSize;
                 segment' = segment + segmentLength';
                 s3 = (if item_length cur' = kMaxChunksize then downloadPushProgressItem d s2 else s2)
             in (segmentLength', segment', s3)))"

text \<open>
  The second \<^verbatim>\<open>if\<close> of the loop body. The fields of the new item that the program
  leaves unwritten here (it writes them before the item is queued) are 0.
\<close>

definition segment_reload :: "ptr \<Rightarrow> gDownload \<Rightarrow> gDownload" where
  "segment_reload d s =
     (case currentProgressItem (mem s d) of
        Some cur \<Rightarrow> s
      | None \<Rightarrow>
          (case malloc sizeof_DownloadProgressItem s of (a, s1) \<Rightarrow>
             (case malloc (unat kMaxChunksize) s1 of (b, s2) \<Rightarrow>
                modify d (\<lambda>x. x\<lparr>currentProgressItem :=
                  Some \<lparr>item_addr = a, item_context = 0, chunk = b, item_length = 0,
                        item_bytesExpected = 0, item_bytesLoaded = 0\<rparr>\<rparr>) s2)))"

definition segment_body :: "ptr \<Rightarrow> size_t \<times> size_t \<times> gDownload \<Rightarrow> size_t \<times> size_t \<times> gDownload" where
  "segment_body d c =
     (case segment_fill d c of (segmentLength, segment, s) \<Rightarrow>
        (segmentLength, segment, segment_reload d s))"

definition segment_measure :: "ptr \<Rightarrow> size_t \<times> size_t \<times> gDownload \<Rightarrow> nat" where
  "segment_measure d c =
     (case c of (segmentLength, segment, s) \<Rightarrow>
        2 * unat segmentLength +
        (case currentProgressItem (mem s d) of
           None \<Rightarrow> 1
         | Some cur \<Rightarrow> if item_length cur = kMaxChunksize then 1 else 0))"

lemma MIN_macro_zero: "0 < b \<Longrightarrow> MIN_macro a b = 0 \<Longrightarrow> a = 0"
  by (auto simp: MIN_macro_def split: if_splits)

lemma MIN_macro_le: "MIN_macro a b \<le> b"
  by (auto simp: MIN_macro_def)

lemma unat_sub_MIN_macro:
  assumes "MIN_macro a b \<noteq> 0"
  shows "unat (b - MIN_macro a b) < unat b"
proof -
  have 1: "unat (b - MIN_macro a b) = unat b - unat (MIN_macro a b)"
    by (rule unat_sub) (rule MIN_macro_le)
  have 2: "0 < unat (MIN_macro a b)"
    using assms by (simp add: unat_gt_0)
  have 3: "unat (MIN_macro a b) \<le> unat b"
    using MIN_macro_le[of a b] by (simp add: word_le_nat_alt)
  from 1 2 3 show ?thesis by arith
qed

lemma downloadPushProgressItem_clears:
  "currentProgressItem (mem (downloadPushProgressItem d s) d) = None"
  by (auto simp: downloadPushProgressItem_def modify_def emit_def Let_def split: option.splits)

text \<open>What \<^verbatim>\<open>downloadPushProgressItem\<close> queues: the current item, stamped, or nothing.\<close>

definition flushed :: "ptr \<Rightarrow> gDownload \<Rightarrow> DownloadProgressItem list" where
  "flushed d s =
     (case currentProgressItem (mem s d) of
        None \<Rightarrow> []
      | Some cur \<Rightarrow> [cur\<lparr>item_bytesExpected := bytesExpected (mem s d),
                         item_bytesLoaded := bytesLoaded (mem s d),
                         item_context := d\<rparr>])"

lemma downloadPushProgressItem_fields [simp]:
  "jobQueue (downloadPushProgressItem d s) = jobQueue s"
  "resultsQueue (downloadPushProgressItem d s) = resultsQueue s"
  "progressQueue (downloadPushProgressItem d s) = progressQueue s @ flushed d s"
  "progressRecycleQueue (downloadPushProgressItem d s) = progressRecycleQueue s"
  "count (downloadPushProgressItem d s) = count s"
  "brk (downloadPushProgressItem d s) = brk s"
  "trace (downloadPushProgressItem d s) = trace s @ map PushProgress (flushed d s)"
  "outstandingProgressItems (mem (downloadPushProgressItem d s) d)
     = outstandingProgressItems (mem s d) + int (length (flushed d s))"
  by (simp_all add: downloadPushProgressItem_def flushed_def Let_def split: option.splits)


lemma flushed_chunk: "chunk ` set (flushed d s) = chunk ` set_option (currentProgressItem (mem s d))"
  by (cases "currentProgressItem (mem s d)") (simp_all add: flushed_def)

lemma segment_reload_measure:
  "(case currentProgressItem (mem (segment_reload d s) d) of None \<Rightarrow> 1::nat
     | Some cur \<Rightarrow> if item_length cur = kMaxChunksize then 1 else 0)
   = (case currentProgressItem (mem s d) of None \<Rightarrow> 0
     | Some cur \<Rightarrow> if item_length cur = kMaxChunksize then 1 else 0)"
  by (simp add: segment_reload_def malloc_def modify_def emit_def kMaxChunksize_def
        split: option.splits)

lemma segment_body_decreases:
  assumes "0 < fst c"
  shows "segment_measure d (segment_body d c) < segment_measure d c"
proof -
  obtain n p s where c: "c = (n, p, s)" by (cases c)
  with assms have n: "0 < n" by simp
  show ?thesis
  proof (cases "currentProgressItem (mem s d)")
    case None
    then show ?thesis
      by (simp add: c segment_measure_def segment_body_def segment_fill_def segment_reload_def
            malloc_def modify_def emit_def kMaxChunksize_def)
  next
    case (Some cur)
    let ?m = "MIN_macro (kMaxChunksize - item_length cur) n"
    show ?thesis
    proof (cases "?m = 0")
      case True
      with n have len: "item_length cur = kMaxChunksize"
        using MIN_macro_zero[of n "kMaxChunksize - item_length cur"] by simp
      from n have "kMaxChunksize + n \<noteq> kMaxChunksize" by simp
      with True len Some show ?thesis
        by (simp add: c segment_measure_def segment_body_def segment_fill_def Let_def
              segment_reload_measure modify_def emit_def)
    next
      case False
      then have lt: "unat (n - ?m) < unat n" by (rule unat_sub_MIN_macro)
      have "segment_measure d (segment_body d c) \<le> 2 * unat (n - ?m) + 1"
        using Some
        by (simp add: c segment_measure_def segment_body_def segment_fill_def Let_def
              segment_reload_measure modify_def emit_def downloadPushProgressItem_clears
              split: option.splits)
      moreover have "2 * unat n \<le> segment_measure d c"
        by (simp add: c segment_measure_def)
      ultimately show ?thesis using lt by arith
    qed
  qed
qed

function segment_loop :: "ptr \<Rightarrow> size_t \<times> size_t \<times> gDownload \<Rightarrow> size_t \<times> size_t \<times> gDownload" where
  "segment_loop d c = (if 0 < fst c then segment_loop d (segment_body d c) else c)"
  by pat_completeness auto
termination
  by (relation "measure (\<lambda>(d, c). segment_measure d c)") (auto simp: segment_body_decreases)

declare segment_loop.simps [simp del]

text \<open>
  \<^verbatim>\<open>onCURLDownloadSegment(segment, count, elements, user)\<close>; the name \<open>count\<close> is taken by
  the field of \<^verbatim>\<open>gDownload\<close>, so the parameter is \<open>cnt\<close>.
\<close>

definition onCURLDownloadSegment :: "size_t \<Rightarrow> size_t \<Rightarrow> ptr \<Rightarrow> gDownload \<Rightarrow> size_t \<times> gDownload" where
  "onCURLDownloadSegment cnt elements user s =
     (let s0 = downloadRecycleProgressItems s;
          segmentLength = cnt * elements
      in (cnt * elements, snd (snd (segment_loop user (segmentLength, 0, s0)))))"

text \<open>
  \<^verbatim>\<open>onCURLDownloadProgress\<close> receives doubles and casts them to \<^verbatim>\<open>size_t\<close>; the arguments
  here are the values after the cast.
\<close>

definition onCURLDownloadProgress :: "ptr \<Rightarrow> size_t \<Rightarrow> size_t \<Rightarrow> gDownload \<Rightarrow> int \<times> gDownload" where
  "onCURLDownloadProgress user dlTotal dlCurrent s =
     (0, modify user (\<lambda>x. x\<lparr>bytesExpected := dlTotal, bytesLoaded := dlCurrent\<rparr>) s)"

subsection \<open>Worker: the thread\<close>

text \<open>
  libcurl is outside the program. What it does for one job is a parameter: either
  \<^verbatim>\<open>curl_easy_init\<close> returns null, or \<^verbatim>\<open>curl_easy_perform\<close> calls the two registered
  callbacks some number of times, in some order, and returns a \<^verbatim>\<open>CURLcode\<close>. Both
  callbacks always return what libcurl takes as "go on", so the calls do not depend on them.
\<close>

datatype curl_callback = WriteData size_t size_t | ProgressInfo size_t size_t

datatype curl_session = InitFails | Transfer "curl_callback list" int

fun curl_easy_perform :: "curl_callback list \<Rightarrow> ptr \<Rightarrow> gDownload \<Rightarrow> gDownload" where
  "curl_easy_perform [] user s = s"
| "curl_easy_perform (WriteData cnt elements # cbs) user s =
     curl_easy_perform cbs user (snd (onCURLDownloadSegment cnt elements user s))"
| "curl_easy_perform (ProgressInfo dlTotal dlCurrent # cbs) user s =
     curl_easy_perform cbs user (snd (onCURLDownloadProgress user dlTotal dlCurrent s))"

subsection \<open>What the worker's transfer code changes\<close>

text \<open>
  The events of the transfer code are allocator calls, copies and pushes of progress items;
  \<open>pushed\<close> reads the pushed items off a list of events, \<open>copied\<close> the destination
  buffers of the copies. \<open>covered evs slot\<close>: every buffer copied into during \<open>evs\<close> is
  the buffer of an item pushed during \<open>evs\<close>, or of the item in \<open>slot\<close>.
\<close>

fun transfer_event :: "event \<Rightarrow> bool" where
  "transfer_event (Malloc a n) = True"
| "transfer_event (Free a) = True"
| "transfer_event (Memcpy b off src n) = True"
| "transfer_event (PushProgress item) = True"
| "transfer_event e = False"

fun pushed :: "event list \<Rightarrow> DownloadProgressItem list" where
  "pushed [] = []"
| "pushed (PushProgress item # evs) = item # pushed evs"
| "pushed (e # evs) = pushed evs"

fun copied :: "event list \<Rightarrow> ptr list" where
  "copied [] = []"
| "copied (Memcpy b off src n # evs) = b # copied evs"
| "copied (e # evs) = copied evs"

definition covered :: "event list \<Rightarrow> DownloadProgressItem option \<Rightarrow> bool" where
  "covered evs slot \<longleftrightarrow>
     set (copied evs) \<subseteq> chunk ` set (pushed evs) \<union> chunk ` set_option slot"

lemma pushed_append [simp]: "pushed (xs @ ys) = pushed xs @ pushed ys"
  by (induction xs rule: pushed.induct) auto

lemma copied_append [simp]: "copied (xs @ ys) = copied xs @ copied ys"
  by (induction xs rule: copied.induct) auto

lemma pushed_map_PushProgress [simp]: "pushed (map PushProgress items) = items"
  by (induction items) auto

lemma copied_map_PushProgress [simp]: "copied (map PushProgress items) = []"
  by (induction items) auto

lemma pushed_frees [simp]: "pushed (frees q) = []"
  by (induction q) auto

lemma copied_frees [simp]: "copied (frees q) = []"
  by (induction q) auto

text \<open>
  \<open>worker_frame d s s'\<close>: from \<open>s\<close> to \<open>s'\<close> only transfer events were added, the job
  and results queues and the count are untouched, the progress queue grew by exactly the
  pushed items, all of them owned by \<open>d\<close>, the outstanding counter of \<open>d\<close> grew by their
  number, the copies stay covered, and no other \<^verbatim>\<open>Download\<close> is written.
\<close>

definition worker_frame :: "ptr \<Rightarrow> gDownload \<Rightarrow> gDownload \<Rightarrow> bool" where
  "worker_frame d s s' \<longleftrightarrow>
     jobQueue s' = jobQueue s \<and> resultsQueue s' = resultsQueue s \<and> count s' = count s \<and>
     (\<exists>evs. trace s' = trace s @ evs \<and> list_all transfer_event evs \<and>
        progressQueue s' = progressQueue s @ pushed evs \<and>
        list_all (\<lambda>item. item_context item = d) (pushed evs) \<and>
        outstandingProgressItems (mem s' d) =
          outstandingProgressItems (mem s d) + int (length (pushed evs)) \<and>
        (\<forall>pre. covered pre (currentProgressItem (mem s d)) \<longrightarrow>
               covered (pre @ evs) (currentProgressItem (mem s' d)))) \<and>
     brk s \<le> brk s' \<and> (\<forall>d'. d' \<noteq> d \<longrightarrow> mem s' d' = mem s d')"

lemma worker_frame_refl: "worker_frame d s s"
  by (simp add: worker_frame_def)

lemma worker_frame_trans:
  assumes "worker_frame d s s'" "worker_frame d s' s''"
  shows "worker_frame d s s''"
proof -
  from assms(1) obtain evs where 1: "trace s' = trace s @ evs" "list_all transfer_event evs"
    "progressQueue s' = progressQueue s @ pushed evs"
    "list_all (\<lambda>item. item_context item = d) (pushed evs)"
    "outstandingProgressItems (mem s' d)
       = outstandingProgressItems (mem s d) + int (length (pushed evs))"
    "\<And>pre. covered pre (currentProgressItem (mem s d)) \<Longrightarrow>
            covered (pre @ evs) (currentProgressItem (mem s' d))"
    unfolding worker_frame_def by blast
  from assms(2) obtain evs' where 2: "trace s'' = trace s' @ evs'" "list_all transfer_event evs'"
    "progressQueue s'' = progressQueue s' @ pushed evs'"
    "list_all (\<lambda>item. item_context item = d) (pushed evs')"
    "outstandingProgressItems (mem s'' d)
       = outstandingProgressItems (mem s' d) + int (length (pushed evs'))"
    "\<And>pre. covered pre (currentProgressItem (mem s' d)) \<Longrightarrow>
            covered (pre @ evs') (currentProgressItem (mem s'' d))"
    unfolding worker_frame_def by blast
  have "trace s'' = trace s @ (evs @ evs')" using 1 2 by simp
  moreover have "list_all transfer_event (evs @ evs')" using 1 2 by simp
  moreover have "progressQueue s'' = progressQueue s @ pushed (evs @ evs')" using 1 2 by simp
  moreover have "list_all (\<lambda>item. item_context item = d) (pushed (evs @ evs'))"
    using 1 2 by simp
  moreover have "outstandingProgressItems (mem s'' d) =
          outstandingProgressItems (mem s d) + int (length (pushed (evs @ evs')))"
    using 1 2 by simp
  moreover have "\<forall>pre. covered pre (currentProgressItem (mem s d)) \<longrightarrow>
               covered (pre @ (evs @ evs')) (currentProgressItem (mem s'' d))"
    using 1(6) 2(6) by (metis append_assoc)
  moreover have "jobQueue s'' = jobQueue s" "resultsQueue s'' = resultsQueue s" "count s'' = count s"
    "brk s \<le> brk s''" "\<forall>d'. d' \<noteq> d \<longrightarrow> mem s'' d' = mem s d'"
    using assms by (simp_all add: worker_frame_def)
  ultimately show ?thesis unfolding worker_frame_def by blast
qed

lemma worker_frame_single:
  assumes "jobQueue s' = jobQueue s" "resultsQueue s' = resultsQueue s" "count s' = count s"
    "trace s' = trace s @ evs" "list_all transfer_event evs"
    "progressQueue s' = progressQueue s @ pushed evs"
    "list_all (\<lambda>item. item_context item = d) (pushed evs)"
    "outstandingProgressItems (mem s' d)
       = outstandingProgressItems (mem s d) + int (length (pushed evs))"
    "\<And>pre. covered pre (currentProgressItem (mem s d)) \<Longrightarrow>
            covered (pre @ evs) (currentProgressItem (mem s' d))"
    "brk s \<le> brk s'" "\<And>d'. d' \<noteq> d \<Longrightarrow> mem s' d' = mem s d'"
  shows "worker_frame d s s'"
  using assms unfolding worker_frame_def by blast

lemma worker_frame_free: "worker_frame d s (free p s)"
  by (rule worker_frame_single[where evs = "[Free p]"]) (simp_all add: free_def covered_def)

lemma worker_frame_recycle_loop: "worker_frame d s (downloadRecycleProgressItems_loop q s)"
proof (induction q arbitrary: s)
  case Nil
  show ?case by (simp add: worker_frame_refl)
next
  case (Cons item q)
  show ?case
    by (simp, rule worker_frame_trans[OF _ Cons.IH],
        rule worker_frame_trans[OF worker_frame_free worker_frame_free])
qed

lemma worker_frame_recycle: "worker_frame d s (downloadRecycleProgressItems s)"
proof -
  have "worker_frame d s (s\<lparr>progressRecycleQueue := []\<rparr>)"
    by (rule worker_frame_single[where evs = "[]"]) simp_all
  then show ?thesis
    unfolding downloadRecycleProgressItems_def
    by (rule worker_frame_trans) (rule worker_frame_recycle_loop)
qed

lemma worker_frame_push: "worker_frame d s (downloadPushProgressItem d s)"
proof (cases "currentProgressItem (mem s d)")
  case None
  then show ?thesis by (simp add: downloadPushProgressItem_def worker_frame_refl)
next
  case (Some cur)
  show ?thesis
    by (rule worker_frame_single[where evs = "[PushProgress
          (cur\<lparr>item_bytesExpected := bytesExpected (mem s d),
               item_bytesLoaded := bytesLoaded (mem s d), item_context := d\<rparr>)]"])
       (auto simp: downloadPushProgressItem_def Some Let_def covered_def)
qed

lemma worker_frame_fill: "worker_frame d s (snd (snd (segment_fill d (n, p, s))))"
proof (cases "currentProgressItem (mem s d)")
  case None
  then show ?thesis by (simp add: segment_fill_def worker_frame_refl)
next
  case (Some cur)
  let ?m = "MIN_macro (kMaxChunksize - item_length cur) n"
  let ?s2 = "modify d (\<lambda>x. x\<lparr>currentProgressItem :=
                                 Some (cur\<lparr>item_length := item_length cur + n\<rparr>),
                               bytesLoaded := bytesLoaded x + ?m\<rparr>)
               (emit (Memcpy (chunk cur) (item_length cur) p ?m) s)"
  have 1: "worker_frame d s ?s2"
    by (rule worker_frame_single[where evs = "[Memcpy (chunk cur) (item_length cur) p ?m]"])
       (auto simp: Some covered_def)
  have 2: "worker_frame d s (downloadPushProgressItem d ?s2)"
    by (rule worker_frame_trans[OF 1 worker_frame_push])
  have 3: "worker_frame d s
     (if item_length (cur\<lparr>item_length := item_length cur + n\<rparr>) = kMaxChunksize
      then downloadPushProgressItem d ?s2 else ?s2)"
    using 1 2 by (simp only: if_split) simp
  show ?thesis using 3 by (simp add: segment_fill_def Some Let_def)
qed

lemma worker_frame_reload: "worker_frame d s (segment_reload d s)"
proof (cases "currentProgressItem (mem s d)")
  case None
  show ?thesis
    by (rule worker_frame_single[where evs = "[Malloc (brk s + 1) sizeof_DownloadProgressItem,
                                             Malloc (brk s + 2) (unat kMaxChunksize)]"])
       (auto simp: segment_reload_def None malloc_def covered_def)
next
  case (Some cur)
  then show ?thesis by (simp add: segment_reload_def worker_frame_refl)
qed

lemma worker_frame_body: "worker_frame d (snd (snd c)) (snd (snd (segment_body d c)))"
proof -
  obtain n p s where c: "c = (n, p, s)" by (cases c)
  obtain n' p' s' where f: "segment_fill d (n, p, s) = (n', p', s')"
    by (cases "segment_fill d (n, p, s)")
  have "worker_frame d s s'" using worker_frame_fill[of d s n p] by (simp add: f)
  then have "worker_frame d s (segment_reload d s')"
    by (rule worker_frame_trans) (rule worker_frame_reload)
  then show ?thesis by (simp add: c segment_body_def f)
qed

lemma worker_frame_loop: "worker_frame d (snd (snd c)) (snd (snd (segment_loop d c)))"
proof (induction d c rule: segment_loop.induct)
  case (1 d c)
  show ?case
  proof (cases "0 < fst c")
    case True
    from worker_frame_trans[OF worker_frame_body "1.IH"[OF True]] True
    show ?thesis by (simp add: segment_loop.simps[of d c])
  next
    case False
    then show ?thesis by (simp add: segment_loop.simps[of d c] worker_frame_refl)
  qed
qed

lemma worker_frame_segment: "worker_frame d s (snd (onCURLDownloadSegment cnt elements d s))"
proof -
  have "worker_frame d (downloadRecycleProgressItems s)
     (snd (snd (segment_loop d (cnt * elements, 0, downloadRecycleProgressItems s))))"
    using worker_frame_loop[of d "(cnt * elements, 0, downloadRecycleProgressItems s)"] by simp
  from worker_frame_trans[OF worker_frame_recycle this]
  show ?thesis by (simp add: onCURLDownloadSegment_def Let_def)
qed

lemma worker_frame_progress: "worker_frame d s (snd (onCURLDownloadProgress d a b s))"
  by (rule worker_frame_single[where evs = "[]"]) (simp_all add: onCURLDownloadProgress_def)

lemma worker_frame_perform: "worker_frame d s (curl_easy_perform cbs d s)"
proof (induction cbs d s rule: curl_easy_perform.induct)
  case (1 user s)
  show ?case by (simp add: worker_frame_refl)
next
  case (2 cnt elements cbs user s)
  show ?case by (simp, rule worker_frame_trans[OF worker_frame_segment "2.IH"])
next
  case (3 dlTotal dlCurrent cbs user s)
  show ?case by (simp, rule worker_frame_trans[OF worker_frame_progress "3.IH"])
qed

text \<open>
  The body of the \<^verbatim>\<open>while(1)\<close> of \<^verbatim>\<open>curlThread\<close> for a popped, non-null job;
  \<open>push_result\<close> is \<^verbatim>\<open>g_async_queue_push(gDownload.resultsQueue, download)\<close>.
\<close>

definition push_result :: "ptr \<Rightarrow> gDownload \<Rightarrow> gDownload" where
  "push_result download s =
     (if download = 0 then s
      else emit (PushResult download)
             (s\<lparr>resultsQueue := g_async_queue_push (resultsQueue s) download\<rparr>))"

definition curlThread_job :: "(ptr \<Rightarrow> curl_session) \<Rightarrow> ptr \<Rightarrow> gDownload \<Rightarrow> gDownload" where
  "curlThread_job engine download s =
     (case engine download of
        InitFails \<Rightarrow>
          push_result download
            (modify download (\<lambda>x. x\<lparr>result := 0, reason := Some ''curl-init-error''\<rparr>) s)
      | Transfer cbs res \<Rightarrow>
          let s1 = emit (PerformStart download) s;
              s2 = curl_easy_perform cbs download s1;
              s3 = emit (PerformEnd download res) s2;
              s4 = downloadPushProgressItem download s3;
              s5 = modify download (\<lambda>x. x\<lparr>result := res, reason := Some ''curl-done''\<rparr>) s4;
              s6 = push_result download s5
          in downloadRecycleProgressItems s6)"

lemma worker_frame_jobQueue: "worker_frame d s s' \<Longrightarrow> jobQueue s' = jobQueue s"
  by (simp add: worker_frame_def)

lemma push_result_jobQueue [simp]: "jobQueue (push_result download s) = jobQueue s"
  by (simp add: push_result_def)

lemma worker_frame_job: "jobQueue (curlThread_job engine download s) = jobQueue s"
proof (cases "engine download")
  case InitFails
  then show ?thesis
    by (simp add: curlThread_job_def)
next
  case (Transfer cbs res)
  show ?thesis
    by (simp add: curlThread_job_def Transfer Let_def
          worker_frame_jobQueue[OF worker_frame_recycle]
          worker_frame_jobQueue[OF worker_frame_push]
          worker_frame_jobQueue[OF worker_frame_perform])
qed

lemma push_result_fields [simp]:
  "progressQueue (push_result d s) = progressQueue s"
  "progressRecycleQueue (push_result d s) = progressRecycleQueue s"
  "count (push_result d s) = count s"
  "mem (push_result d s) = mem s"
  "brk (push_result d s) = brk s"
  "d \<noteq> 0 \<Longrightarrow> resultsQueue (push_result d s) = resultsQueue s @ [d]"
  "d \<noteq> 0 \<Longrightarrow> trace (push_result d s) = trace s @ [PushResult d]"
  by (simp_all add: push_result_def g_async_queue_push_def)



lemma flushed_emit [simp]: "flushed d (emit e s) = flushed d s"
  by (simp add: flushed_def split: option.splits)

lemma transfer_event_control:
  assumes "list_all transfer_event evs"
  shows "PushResult d \<notin> set evs" "PerformStart d \<notin> set evs"
  using assms by (auto simp: list_all_iff)


text \<open>
  \<^verbatim>\<open>curlThread\<close>: \<^verbatim>\<open>g_async_queue_pop\<close> suspends the thread on an empty job queue
  (\<open>Waiting\<close>, to be resumed by running the loop again once a job is there); a null job
  is the shutdown token (\<open>Exited\<close>).
\<close>

datatype thread_state = Waiting | Exited

function curlThread_loop :: "(ptr \<Rightarrow> curl_session) \<Rightarrow> gDownload \<Rightarrow> thread_state \<times> gDownload" where
  "curlThread_loop engine s =
     (case jobQueue s of
        [] \<Rightarrow> (Waiting, s)
      | download # q \<Rightarrow>
          if download = 0 then (Exited, s\<lparr>jobQueue := q\<rparr>)
          else curlThread_loop engine (curlThread_job engine download (s\<lparr>jobQueue := q\<rparr>)))"
  by pat_completeness auto
termination
  by (relation "measure (\<lambda>(engine, s). length (jobQueue s))") (auto simp: worker_frame_job)

declare curlThread_loop.simps [simp del]

definition curlThread :: "(ptr \<Rightarrow> curl_session) \<Rightarrow> gDownload \<Rightarrow> thread_state \<times> gDownload" where
  "curlThread engine s =
     (case curlThread_loop engine s of
        (Waiting, s') \<Rightarrow> (Waiting, s')
      | (Exited, s') \<Rightarrow> (Exited, downloadRecycleProgressItems s'))"




subsection \<open>Foreground: submission and the periodic poller\<close>

definition DownloadInit :: "gDownload \<Rightarrow> gDownload" where
  "DownloadInit s = s\<lparr>jobQueue := [], resultsQueue := [], progressQueue := [],
                       progressRecycleQueue := [], count := 0\<rparr>"

text \<open>
  \<^verbatim>\<open>DownloadNew\<close>: \<^verbatim>\<open>strdup\<close> is an allocation (the characters and the final
  null byte) holding the same characters;
  \<^verbatim>\<open>gdk_threads_add_timeout(100, &onDownloadQueuePoll, 0)\<close> is the event \<open>TimeoutAdd 100\<close>;
  \<open>push_job\<close> is \<^verbatim>\<open>g_async_queue_push(gDownload.jobQueue, download)\<close>.
\<close>

definition push_job :: "ptr \<Rightarrow> gDownload \<Rightarrow> gDownload" where
  "push_job download s =
     (if download = 0 then s
      else emit (PushJob download)
             (s\<lparr>jobQueue := g_async_queue_push (jobQueue s) download\<rparr>))"

definition DownloadNew :: "DownloadOptions \<Rightarrow> gDownload \<Rightarrow> ptr \<times> gDownload" where
  "DownloadNew opts s =
     (case malloc sizeof_Download s of (download, s1) \<Rightarrow>
        (case malloc (length (url opts) + 1) s1 of (u, s2) \<Rightarrow>
           let s3 = s2\<lparr>mem := (mem s2)(download :=
                      \<lparr>options = \<lparr>url_addr = u, url = url opts,
                                   progressCallback = progressCallback opts,
                                   completeCallback = completeCallback opts,
                                   context = context opts\<rparr>,
                       result = 0, reason = None, bytesExpected = 0, bytesLoaded = 0,
                       currentProgressItem = None, outstandingProgressItems = 0\<rparr>)\<rparr>;
               s4 = push_job download s3;
               s5 = (if count s4 = 0 then emit (TimeoutAdd 100) s4 else s4);
               s6 = s5\<lparr>count := count s5 + 1\<rparr>
           in (download, s6)))"

text \<open>The first loop of \<^verbatim>\<open>onDownloadQueuePoll\<close>: one popped progress item.\<close>

definition poll_progress_body :: "DownloadProgressItem \<Rightarrow> gDownload \<Rightarrow> gDownload" where
  "poll_progress_body progressItem s =
     (let d = item_context progressItem;
          s1 = (if progressCallback (options (mem s d)) \<noteq> 0
                then emit (ProgressCallback d (chunk progressItem) (item_length progressItem)
                             (item_bytesLoaded progressItem) (item_bytesExpected progressItem)) s
                else s);
          s2 = modify d (\<lambda>x. x\<lparr>outstandingProgressItems := outstandingProgressItems x - 1\<rparr>) s1;
          item = progressItem\<lparr>item_context := 0\<rparr>
      in emit (PushRecycle item) (s2\<lparr>progressRecycleQueue := progressRecycleQueue s2 @ [item]\<rparr>))"

lemma progressQueue_poll_progress_body [simp]:
  "progressQueue (poll_progress_body progressItem s) = progressQueue s"
  by (simp add: poll_progress_body_def Let_def modify_def emit_def)

function poll_progress :: "gDownload \<Rightarrow> gDownload" where
  "poll_progress s =
     (case g_async_queue_try_pop (progressQueue s) of
        None \<Rightarrow> s
      | Some (progressItem, q) \<Rightarrow> poll_progress (poll_progress_body progressItem (s\<lparr>progressQueue := q\<rparr>)))"
  by pat_completeness auto
termination
  by (relation "measure (\<lambda>s. length (progressQueue s))")
     (auto simp: g_async_queue_try_pop_def split: list.splits)

declare poll_progress.simps [simp del]

text \<open>
  The second loop: one popped \<open>completeItem\<close>. Nothing in the loop ends it while the
  queue hands an item out, so the loop is a partial function: \<open>None\<close> is "never returns".
\<close>

definition poll_complete_body :: "ptr \<Rightarrow> gDownload \<Rightarrow> gDownload" where
  "poll_complete_body completeItem s =
     (if outstandingProgressItems (mem s completeItem) = 0 then
        let s1 = (if completeCallback (options (mem s completeItem)) \<noteq> 0
                  then emit (CompleteCallback completeItem (result (mem s completeItem))
                               (reason (mem s completeItem))) s
                  else s);
            s2 = free (url_addr (options (mem s1 completeItem))) s1;
            s3 = free completeItem s2
        in s3\<lparr>count := count s3 - 1\<rparr>
      else s\<lparr>resultsQueue := g_async_queue_push_front (resultsQueue s) completeItem\<rparr>)"

lemma poll_complete_body_mem [simp]: "mem (poll_complete_body d s) = mem s"
  by (simp add: poll_complete_body_def Let_def free_def)

lemma poll_complete_body_resultsQueue:
  "resultsQueue (poll_complete_body d s) =
     (if outstandingProgressItems (mem s d) = 0 then resultsQueue s
      else g_async_queue_push_front (resultsQueue s) d)"
  by (simp add: poll_complete_body_def Let_def free_def)

partial_function (option) poll_complete :: "gDownload \<Rightarrow> gDownload option" where
  "poll_complete s =
     (case g_async_queue_try_pop (resultsQueue s) of
        None \<Rightarrow> Some s
      | Some (completeItem, q) \<Rightarrow>
          poll_complete (poll_complete_body completeItem (s\<lparr>resultsQueue := q\<rparr>)))"

declare poll_complete.simps [code]

text \<open>
  \<^verbatim>\<open>onDownloadQueuePoll\<close> returns \<^verbatim>\<open>gDownload.count > 0\<close>: true keeps the timer, false
  removes it.
\<close>

definition onDownloadQueuePoll :: "gDownload \<Rightarrow> (bool \<times> gDownload) option" where
  "onDownloadQueuePoll s =
     map_option (\<lambda>s'. (0 < count s', s')) (poll_complete (poll_progress s))"

subsection \<open>The state after start-up\<close>

text \<open>
  \<open>boot\<close>: zeroed memory, nothing allocated, no events, and \<^verbatim>\<open>DownloadInit\<close> called, as
  in \<^verbatim>\<open>main\<close>. \<open>CURLE_OK\<close> is libcurl's success code (curl.h), the value the client's
  \<^verbatim>\<open>onImageDownloadComplete\<close> compares \<open>result\<close> with to tell success from failure.
\<close>

definition null_Download :: Download where
  "null_Download =
     \<lparr>options = \<lparr>url_addr = 0, url = [], progressCallback = 0, completeCallback = 0,
                  context = 0\<rparr>,
      result = 0, reason = None, bytesExpected = 0, bytesLoaded = 0,
      currentProgressItem = None, outstandingProgressItems = 0\<rparr>"

definition boot :: gDownload where
  "boot = DownloadInit
     \<lparr>jobQueue = [], resultsQueue = [], progressQueue = [], progressRecycleQueue = [],
      count = 0, mem = (\<lambda>p. null_Download), brk = 0, trace = []\<rparr>"

definition CURLE_OK :: int where
  "CURLE_OK = 0"

text \<open>A client's request: both callbacks registered.\<close>

definition request :: DownloadOptions where
  "request = \<lparr>url_addr = 1000, url = ''http://test/ok'', progressCallback = 2000,
               completeCallback = 3000, context = 4000\<rparr>"

subsection \<open>Concrete runs\<close>

text \<open>
  The defining equations that evaluate a run on a concrete state. A transfer of 131073
  bytes (one more than \<open>kMaxChunksize\<close>) as libcurl delivers it with its default write
  buffer of 16 KiB: seven full buffers, one of 16383 bytes, one of 2 bytes.
\<close>

lemmas run_defs =
  DownloadNew_def push_job_def boot_def DownloadInit_def malloc_def Let_def g_async_queue_push_def
  sizeof_Download_def request_def emit_def modify_def curlThread_def curlThread_loop.simps
  curlThread_job_def push_result_def null_Download_def downloadRecycleProgressItems_def
  downloadPushProgressItem_def onCURLDownloadSegment_def segment_loop.simps segment_body_def
  segment_fill_def segment_reload_def kMaxChunksize_def MIN_macro_def
  sizeof_DownloadProgressItem_def onCURLDownloadProgress_def free_def onDownloadQueuePoll_def
  poll_progress.simps poll_complete.simps poll_progress_body_def poll_complete_body_def
  g_async_queue_try_pop_def g_async_queue_push_front_def CURLE_OK_def

definition nine_segments :: "curl_callback list" where
  "nine_segments =
     [WriteData 1 16384, WriteData 1 16384, WriteData 1 16384, WriteData 1 16384,
      WriteData 1 16384, WriteData 1 16384, WriteData 1 16384, WriteData 1 16383,
      WriteData 1 2]"

text \<open>A transfer of exactly \<open>kMaxChunksize\<close> bytes in eight full buffers.\<close>

definition eight_segments :: "curl_callback list" where
  "eight_segments =
     [WriteData 1 16384, WriteData 1 16384, WriteData 1 16384, WriteData 1 16384,
      WriteData 1 16384, WriteData 1 16384, WriteData 1 16384, WriteData 1 16384]"


text \<open>A copy stays inside the destination buffer when offset plus count is at most its size.\<close>

fun copy_in_bounds :: "event \<Rightarrow> bool" where
  "copy_in_bounds (Memcpy b off src n) = (unat off + unat n \<le> unat kMaxChunksize)"
| "copy_in_bounds e = True"

text \<open>
  The byte at position \<open>i\<close> of the segment in hand is the source of a copy.
\<close>

fun copied_source :: "event \<Rightarrow> nat \<Rightarrow> bool" where
  "copied_source (Memcpy b off src n) i = (unat src \<le> i \<and> i < unat src + unat n)"
| "copied_source e i = False"

text \<open>
  A transfer whose eighth buffer is 100 bytes short, so that the ninth crosses the end of
  the first chunk; \<open>before_ninth\<close> is the worker's state when libcurl hands the ninth
  buffer over.
\<close>

definition eight_uneven :: "curl_callback list" where
  "eight_uneven =
     [WriteData 1 16384, WriteData 1 16384, WriteData 1 16384, WriteData 1 16384,
      WriteData 1 16384, WriteData 1 16384, WriteData 1 16384, WriteData 1 16284]"

definition before_ninth :: gDownload where
  "before_ninth =
     curl_easy_perform eight_uneven 1
       (emit (PerformStart 1) ((snd (DownloadNew request boot))\<lparr>jobQueue := []\<rparr>))"

text \<open>
  A schedule that leaves a released buffer in the recycle queue while the worker is about
  to take a new one: inside its first write callback the worker takes a buffer (address 4),
  fills it with 128 KiB and queues it; the poller delivers the chunk and releases the
  item; the worker is at the second \<^verbatim>\<open>if\<close> of the same loop pass.
\<close>

definition one_released :: gDownload where
  "one_released =
     poll_progress (snd (snd (segment_fill 1 (131072, 0,
       segment_reload 1 (snd (DownloadNew request boot))))))"


subsection \<open>The outstanding counter, step by step\<close>

text \<open>
  \<^verbatim>\<open>progressItem->context->outstandingProgressItems--\<close> in the poller and
  \<^verbatim>\<open>context->outstandingProgressItems++\<close> in the worker are operations on a plain
  \<^verbatim>\<open>int\<close>, with no lock and no atomic: each one loads the counter and then stores the
  changed value, and the other thread can run between the load and the store. The
  definitions below cut one pass of the poller's first loop at that point, and
  \<^verbatim>\<open>downloadPushProgressItem\<close> at that point and again before its push, which comes after
  the \<^verbatim>\<open>++\<close>. Run one right after the other, the pieces are the functions above.
\<close>

definition poll_progress_load :: "DownloadProgressItem \<Rightarrow> gDownload \<Rightarrow> int \<times> gDownload" where
  "poll_progress_load progressItem s =
     (let d = item_context progressItem;
          s1 = (if progressCallback (options (mem s d)) \<noteq> 0
                then emit (ProgressCallback d (chunk progressItem) (item_length progressItem)
                             (item_bytesLoaded progressItem) (item_bytesExpected progressItem)) s
                else s)
      in (outstandingProgressItems (mem s1 d), s1))"

definition poll_progress_store :: "DownloadProgressItem \<Rightarrow> int \<Rightarrow> gDownload \<Rightarrow> gDownload" where
  "poll_progress_store progressItem loaded s =
     (let d = item_context progressItem;
          s2 = modify d (\<lambda>x. x\<lparr>outstandingProgressItems := loaded - 1\<rparr>) s;
          item = progressItem\<lparr>item_context := 0\<rparr>
      in emit (PushRecycle item) (s2\<lparr>progressRecycleQueue := progressRecycleQueue s2 @ [item]\<rparr>))"

lemma poll_progress_body_split:
  "poll_progress_body progressItem s =
     (case poll_progress_load progressItem s of
        (loaded, s1) \<Rightarrow> poll_progress_store progressItem loaded s1)"
  by (simp add: poll_progress_body_def poll_progress_load_def poll_progress_store_def Let_def)

definition downloadPushProgressItem_load :: "ptr \<Rightarrow> gDownload \<Rightarrow> int \<times> gDownload" where
  "downloadPushProgressItem_load d s =
     (case currentProgressItem (mem s d) of
        None \<Rightarrow> (outstandingProgressItems (mem s d), s)
      | Some cur \<Rightarrow>
          let item = cur\<lparr>item_bytesExpected := bytesExpected (mem s d),
                         item_bytesLoaded := bytesLoaded (mem s d),
                         item_context := d\<rparr>
          in (outstandingProgressItems (mem s d),
              modify d (\<lambda>x. x\<lparr>currentProgressItem := Some item\<rparr>) s))"

definition downloadPushProgressItem_store :: "ptr \<Rightarrow> int \<Rightarrow> gDownload \<Rightarrow> gDownload" where
  "downloadPushProgressItem_store d loaded s =
     (case currentProgressItem (mem s d) of
        None \<Rightarrow> s
      | Some cur \<Rightarrow> modify d (\<lambda>x. x\<lparr>outstandingProgressItems := loaded + 1\<rparr>) s)"

definition downloadPushProgressItem_push :: "ptr \<Rightarrow> gDownload \<Rightarrow> gDownload" where
  "downloadPushProgressItem_push d s =
     (case currentProgressItem (mem s d) of
        None \<Rightarrow> s
      | Some cur \<Rightarrow>
          modify d (\<lambda>x. x\<lparr>currentProgressItem := None\<rparr>)
            (emit (PushProgress cur) (s\<lparr>progressQueue := progressQueue s @ [cur]\<rparr>)))"

lemma downloadPushProgressItem_split:
  "downloadPushProgressItem d s =
     (case downloadPushProgressItem_load d s of
        (loaded, s1) \<Rightarrow>
          downloadPushProgressItem_push d (downloadPushProgressItem_store d loaded s1))"
  by (cases "currentProgressItem (mem s d)")
     (simp_all add: downloadPushProgressItem_def downloadPushProgressItem_load_def
        downloadPushProgressItem_store_def downloadPushProgressItem_push_def Let_def
        modify_def emit_def)

text \<open>
  A schedule of the two threads. The worker has received 131172 bytes for handle 1 (eight
  full buffers of libcurl, then 100 bytes): the first chunk (buffer 4) is in the progress
  queue, the counter is 1, the second chunk (buffer 6) is the current one, and
  \<^verbatim>\<open>curl_easy_perform\<close> has returned. A tick starts: the poller pops the first chunk,
  invokes the progress callback and loads the counter. The worker, in
  \<^verbatim>\<open>downloadPushProgressItem\<close>, loads the counter and stores it plus one. The poller stores
  what it loaded minus one, finds the progress queue empty and leaves its first loop. The
  worker pushes the second chunk and the completion record. The poller runs its second
  loop and returns.
\<close>

definition lost_update :: "(bool \<times> gDownload) option" where
  "lost_update =
     (let w0 = emit (PerformEnd 1 CURLE_OK)
                 (curl_easy_perform (eight_segments @ [WriteData 1 100]) 1
                    (emit (PerformStart 1) ((snd (DownloadNew request boot))\<lparr>jobQueue := []\<rparr>)))
      in case g_async_queue_try_pop (progressQueue w0) of
           None \<Rightarrow> None
         | Some (progressItem, q) \<Rightarrow>
             (case poll_progress_load progressItem (w0\<lparr>progressQueue := q\<rparr>) of
                (poller_loaded, t1) \<Rightarrow>
                  (case downloadPushProgressItem_load 1 t1 of
                     (worker_loaded, t2) \<Rightarrow>
                       let t3 = downloadPushProgressItem_store 1 worker_loaded t2;
                           t4 = poll_progress (poll_progress_store progressItem poller_loaded t3);
                           t5 = downloadPushProgressItem_push 1 t4;
                           t6 = push_result 1
                                  (modify 1 (\<lambda>x. x\<lparr>result := CURLE_OK,
                                                        reason := Some ''curl-done''\<rparr>) t5)
                       in map_option (\<lambda>s'. (0 < count s', s')) (poll_complete t6))))"

fun is_callback :: "event \<Rightarrow> bool" where
  "is_callback (ProgressCallback d b n loaded expected) = True"
| "is_callback (CompleteCallback d r m) = True"
| "is_callback e = False"

lemmas split_defs = poll_progress_load_def poll_progress_store_def
   downloadPushProgressItem_load_def downloadPushProgressItem_store_def downloadPushProgressItem_push_def

section \<open>Claims\<close>

subsection \<open>Submission\<close>

text \<open>
  C9. \<^verbatim>\<open>DownloadNew\<close> returns a freshly allocated handle that holds its own copy of the
  URL (a second fresh allocation with the same characters), the caller's callbacks and
  context, and zero in \<open>result\<close>, \<open>reason\<close>, both byte counters, the current-chunk slot and
  the outstanding counter. The handle is appended to the job queue and the live-handle
  count goes up by one. The timer is armed exactly when the count was zero on entry. The
  events list everything the call does to the outside: two allocations, one queue push,
  and the timer registration in that case; none of them waits. The other queues are not
  touched, and the function is total, so every call returns.
\<close>

theorem DownloadNew_submits:
  "(case DownloadNew opts s of (download, s') \<Rightarrow>
      download = brk s + 1 \<and>
      mem s' = (mem s)(download :=
        \<lparr>options = \<lparr>url_addr = brk s + 2, url = url opts,
                     progressCallback = progressCallback opts,
                     completeCallback = completeCallback opts, context = context opts\<rparr>,
         result = 0, reason = None, bytesExpected = 0, bytesLoaded = 0,
         currentProgressItem = None, outstandingProgressItems = 0\<rparr>) \<and>
      jobQueue s' = jobQueue s @ [download] \<and>
      count s' = count s + 1 \<and>
      trace s' = trace s @ [Malloc download sizeof_Download,
                            Malloc (download + 1) (length (url opts) + 1),
                            PushJob download]
                 @ (if count s = 0 then [TimeoutAdd 100] else []) \<and>
      resultsQueue s' = resultsQueue s \<and> progressQueue s' = progressQueue s \<and>
      progressRecycleQueue s' = progressRecycleQueue s \<and> brk s' = brk s + 2)"
  by (simp add: DownloadNew_def push_job_def malloc_def Let_def g_async_queue_push_def)

subsection \<open>The poller on empty queues\<close>

text \<open>
  C8. With the progress queue and the results queue both empty, \<^verbatim>\<open>onDownloadQueuePoll\<close>
  returns, the state it leaves is the state it found (so no callback was invoked, and no
  handle, counter or queue changed), and its result is true (keep the timer) exactly when
  the live-handle count is above zero.
\<close>

theorem onDownloadQueuePoll_idle:
  "progressQueue s = [] \<Longrightarrow> resultsQueue s = [] \<Longrightarrow>
   onDownloadQueuePoll s = Some (0 < count s, s)"
  by (simp add: onDownloadQueuePoll_def poll_progress.simps[of s]
        poll_complete.simps[of s] g_async_queue_try_pop_def)

theorem onDownloadQueuePoll_idle_witness:
  "progressQueue (snd (DownloadNew request boot)) = [] \<and>
   resultsQueue (snd (DownloadNew request boot)) = [] \<and>
   onDownloadQueuePoll (snd (DownloadNew request boot))
     = Some (True, snd (DownloadNew request boot))"
proof -
  have 1: "progressQueue (snd (DownloadNew request boot)) = []"
    by (simp add: DownloadNew_def push_job_def boot_def DownloadInit_def malloc_def Let_def)
  have 2: "resultsQueue (snd (DownloadNew request boot)) = []"
    by (simp add: DownloadNew_def push_job_def boot_def DownloadInit_def malloc_def Let_def)
  have 3: "count (snd (DownloadNew request boot)) = 1"
    by (simp add: DownloadNew_def push_job_def boot_def DownloadInit_def malloc_def Let_def)
  show ?thesis
    using onDownloadQueuePoll_idle[OF 1 2] 1 2 3 by simp
qed

subsection \<open>Chunking\<close>

text \<open>
  C3. A transfer of N bytes should be cut into \<open>N div kMaxChunksize\<close> full chunks and at
  most one shorter last chunk, the lengths adding up to N. On the 131073 bytes of
  \<open>nine_segments\<close> that is a chunk of 131072 bytes and a chunk of 1 byte. The program
  queues a single chunk and records 131074 as its length: when a segment does not fit, the
  fill step adds the whole remaining segment length to the chunk's length instead of the
  part it copied, so the length steps over \<open>kMaxChunksize\<close> and the chunk is never found
  full. On the 131072 bytes of \<open>eight_segments\<close>, where no segment crosses a chunk
  boundary, the full chunk is followed by a chunk of length 0: a new item is allocated as
  soon as the full one is queued, and the end of the transfer queues it empty.
\<close>

theorem chunk_lengths_nine_segments:
  "map item_length (progressQueue (snd (curlThread (\<lambda>d. Transfer nine_segments CURLE_OK)
      (snd (DownloadNew request boot))))) = [131074] \<and>
   map item_length (progressQueue (snd (curlThread (\<lambda>d. Transfer eight_segments CURLE_OK)
      (snd (DownloadNew request boot))))) = [131072, 0]"
  by (simp add: run_defs nine_segments_def eight_segments_def cong: let_weak_cong)

text \<open>
  C4. Every copy into a chunk should end inside the chunk's \<open>kMaxChunksize\<close> bytes. On
  \<open>nine_segments\<close> the last copy writes one byte at offset 131073 of the 131072-byte
  buffer allocated as address 4: the recorded length (131073 after the ninth segment's
  first copy) is past the capacity, the unsigned difference
  \<open>kMaxChunksize - length\<close> wraps around to a huge value, and the rest of the segment is
  copied behind the end of the buffer.
\<close>

theorem copy_out_of_bounds_nine_segments:
  "filter (\<lambda>e. \<not> copy_in_bounds e)
     (trace (snd (curlThread (\<lambda>d. Transfer nine_segments CURLE_OK)
        (snd (DownloadNew request boot)))))
   = [Memcpy 4 131073 1 1] \<and>
   filter (\<lambda>item. kMaxChunksize < item_length item)
     (progressQueue (snd (curlThread (\<lambda>d. Transfer nine_segments CURLE_OK)
        (snd (DownloadNew request boot)))))
   = [\<lparr>item_addr = 3, item_context = 1, chunk = 4, item_length = 131074,
       item_bytesExpected = 0, item_bytesLoaded = 131073\<rparr>]"
  by (simp add: run_defs nine_segments_def cong: let_weak_cong)

subsection \<open>Failure to initialise the transfer\<close>

text \<open>
  C5. When \<^verbatim>\<open>curl_easy_init\<close> fails, the job gets no progress callback and exactly one
  completion callback, and that callback should carry a result code different from the
  success code. The run below (submit, worker, one tick) shows the one completion callback
  and no progress callback, but the code it carries is \<open>CURLE_OK\<close>: the branch stores 0 in
  \<open>result\<close>, and only the reason string tells the failure.
\<close>

theorem init_failure_completes_with_CURLE_OK:
  "map_option (\<lambda>(continue, s). trace s)
     (onDownloadQueuePoll
        (snd (curlThread (\<lambda>d. InitFails) (snd (DownloadNew request boot)))))
   = Some [Malloc 1 40, Malloc 2 15, PushJob 1, TimeoutAdd 100, PushResult 1,
           CompleteCallback 1 CURLE_OK (Some ''curl-init-error''), Free 2, Free 1]"
  by (simp add: run_defs cong: let_weak_cong)

subsection \<open>Deferring a completion record\<close>

text \<open>
  The second loop of the poller returns only from a state in which every queued
  completion record has a zero outstanding counter: a record with a nonzero counter is put
  back into the queue the loop is draining, and nothing in the loop changes a counter.
\<close>

lemma poll_complete_returns_only_zero:
  assumes "poll_complete s = Some s'"
  shows "\<forall>d\<in>set (resultsQueue s). d \<noteq> 0 \<longrightarrow> outstandingProgressItems (mem s d) = 0"
proof (rule poll_complete.raw_induct[where P = "\<lambda>s s'.
         \<forall>d\<in>set (resultsQueue s). d \<noteq> 0 \<longrightarrow> outstandingProgressItems (mem s d) = 0",
       OF _ assms])
  fix f s s'
  assume IH: "\<And>t t'. f t = Some t' \<Longrightarrow>
           \<forall>d\<in>set (resultsQueue t). d \<noteq> 0 \<longrightarrow> outstandingProgressItems (mem t d) = 0"
    and run: "(case g_async_queue_try_pop (resultsQueue s) of None \<Rightarrow> Some s
              | Some (completeItem, q) \<Rightarrow>
                  f (poll_complete_body completeItem (s\<lparr>resultsQueue := q\<rparr>))) = Some s'"
  show "\<forall>d\<in>set (resultsQueue s). d \<noteq> 0 \<longrightarrow> outstandingProgressItems (mem s d) = 0"
  proof (cases "resultsQueue s")
    case Nil
    then show ?thesis by simp
  next
    case (Cons completeItem q)
    let ?t = "poll_complete_body completeItem (s\<lparr>resultsQueue := q\<rparr>)"
    from run Cons have "f ?t = Some s'"
      by (simp add: g_async_queue_try_pop_def)
    from IH[OF this]
    have rest: "\<forall>d\<in>set (resultsQueue ?t). d \<noteq> 0 \<longrightarrow> outstandingProgressItems (mem s d) = 0"
      by simp
    have head: "completeItem \<noteq> 0 \<longrightarrow> outstandingProgressItems (mem s completeItem) = 0"
    proof (rule ccontr)
      assume "\<not> ?thesis"
      then have nz: "completeItem \<noteq> 0" "outstandingProgressItems (mem s completeItem) \<noteq> 0"
        by auto
      then have "completeItem \<in> set (resultsQueue ?t)"
        by (simp add: poll_complete_body_resultsQueue g_async_queue_push_front_def)
      with rest nz show False by blast
    qed
    have "set q \<subseteq> set (resultsQueue ?t)"
      by (auto simp: poll_complete_body_resultsQueue g_async_queue_push_front_def)
    with rest head show ?thesis by (auto simp: Cons)
  qed
qed

text \<open>
  C2. A completion record popped with a nonzero counter should be put back at the front,
  skipped, and met again on the next tick: the tick has to return. Take the schedule in
  which the tick's first loop runs on the still empty progress queue, the worker thread
  then finishes a one-byte transfer (it queues the chunk, counter 1, and the completion
  record), and the tick goes on with its second loop. That loop pops the record, puts it
  back at the front and pops it again, for ever: the tick never returns, and the chunk,
  which only a tick's first loop drains, is never delivered.
\<close>

theorem poll_complete_never_returns:
  "poll_complete
     (snd (curlThread (\<lambda>d. Transfer [WriteData 1 1] CURLE_OK)
        (poll_progress (snd (DownloadNew request boot))))) = None"
proof -
  let ?s = "snd (curlThread (\<lambda>d. Transfer [WriteData 1 1] CURLE_OK)
        (poll_progress (snd (DownloadNew request boot))))"
  have q: "resultsQueue ?s = [1]"
    by (simp add: run_defs cong: let_weak_cong)
  have c: "outstandingProgressItems (mem ?s 1) = 1"
    by (simp add: run_defs cong: let_weak_cong)
  show ?thesis
  proof (cases "poll_complete ?s")
    case None
    then show ?thesis .
  next
    case (Some s')
    from poll_complete_returns_only_zero[OF Some] q c show ?thesis by simp
  qed
qed

subsection \<open>Buffers\<close>

text \<open>
  C6, as stated: taking a buffer allocates only when the recycle set is empty and
  otherwise reuses a released buffer, so released buffers are kept. In \<open>one_released\<close>
  the recycle queue holds the item with buffer 4 and the handle has no current chunk;
  the worker's next buffer is a new allocation (6), and the released buffer is freed the
  next time the worker recycles.
\<close>

theorem released_buffer_not_reused:
  "map chunk (progressRecycleQueue one_released) = [4] \<and>
   currentProgressItem (mem one_released 1) = None \<and>
   map_option chunk (currentProgressItem (mem (segment_reload 1 one_released) 1)) = Some 6 \<and>
   filter (\<lambda>e. e = Free 4)
     (trace (downloadRecycleProgressItems (segment_reload 1 one_released))) = [Free 4]"
  by (simp add: one_released_def run_defs cong: let_weak_cong)

text \<open>
  C6, amended: when the handle has no current chunk, the worker allocates a new item and a
  new buffer of \<open>kMaxChunksize\<close> = 128 KiB bytes with length 0, whatever the recycle queue
  holds, and leaves the recycle queue as it is; released items are not reused: recycling
  frees the buffer and the record of every item in the recycle queue and empties the queue.
\<close>

theorem acquire_allocates_anew:
  "currentProgressItem (mem s d) = None \<Longrightarrow>
     currentProgressItem (mem (segment_reload d s) d)
       = Some \<lparr>item_addr = brk s + 1, item_context = 0, chunk = brk s + 2, item_length = 0,
               item_bytesExpected = 0, item_bytesLoaded = 0\<rparr> \<and>
     trace (segment_reload d s)
       = trace s @ [Malloc (brk s + 1) sizeof_DownloadProgressItem,
                    Malloc (brk s + 2) (128 * 1024)] \<and>
     progressRecycleQueue (segment_reload d s) = progressRecycleQueue s \<and>
     trace (downloadRecycleProgressItems s) = trace s @ frees (progressRecycleQueue s) \<and>
     progressRecycleQueue (downloadRecycleProgressItems s) = []"
  by (simp add: segment_reload_def malloc_def kMaxChunksize_def)

theorem acquire_allocates_anew_witness:
  "currentProgressItem (mem one_released 1) = None \<and>
   map chunk (progressRecycleQueue one_released) = [4] \<and>
   map_option chunk (currentProgressItem (mem (segment_reload 1 one_released) 1)) = Some 6 \<and>
   trace (segment_reload 1 one_released) = trace one_released @ [Malloc 5 20, Malloc 6 131072] \<and>
   trace (downloadRecycleProgressItems one_released) = trace one_released @ [Free 4, Free 3]"
proof -
  have 1: "currentProgressItem (mem one_released 1) = None"
    by (simp add: one_released_def run_defs cong: let_weak_cong)
  have 2: "progressRecycleQueue one_released =
             [\<lparr>item_addr = 3, item_context = 0, chunk = 4, item_length = 131072,
               item_bytesExpected = 0, item_bytesLoaded = 131072\<rparr>]"
    by (simp add: one_released_def run_defs cong: let_weak_cong)
  have 3: "brk one_released = 4"
    by (simp add: one_released_def run_defs cong: let_weak_cong)
  show ?thesis
    using acquire_allocates_anew[OF 1] 1 2 3 by (simp add: sizeof_DownloadProgressItem_def)
qed

subsection \<open>The end of a transfer\<close>

text \<open>
  The order at the end of a job whose transfer ran, whatever \<^verbatim>\<open>curl_easy_perform\<close>
  returned, on a handle that started without a current chunk: after the transfer's own
  events \<open>evs\<close> the worker queues what the current slot holds (\<open>flushed\<close>), and only then
  pushes the completion record. Every buffer that a copy was aimed at has been queued by
  then. This is about buffers, not about the bytes in them.
\<close>

lemma flush_before_completion:
  assumes "engine d = Transfer cbs res" and "d \<noteq> 0" and "currentProgressItem (mem s d) = None"
  shows "\<exists>evs before after.
     trace (curl_easy_perform cbs d (emit (PerformStart d) s)) = trace s @ PerformStart d # evs \<and>
     before = PerformStart d # evs @ PerformEnd d res
                # map PushProgress (flushed d (curl_easy_perform cbs d (emit (PerformStart d) s))) \<and>
     trace (curlThread_job engine d s) = trace s @ before @ PushResult d # after \<and>
     PushResult d \<notin> set before \<and>
     set (copied before) \<subseteq> chunk ` set (pushed before) \<and>
     progressQueue (curlThread_job engine d s) = progressQueue s @ pushed before \<and>
     currentProgressItem (mem (curlThread_job engine d s) d) = None \<and>
     pushed after = [] \<and> copied after = [] \<and>
     result (mem (curlThread_job engine d s) d) = res"
proof -
  let ?s1 = "emit (PerformStart d) s"
  let ?s2 = "curl_easy_perform cbs d ?s1"
  let ?fl = "flushed d ?s2"
  let ?s' = "curlThread_job engine d s"
  have job: "?s' = downloadRecycleProgressItems (push_result d
      (modify d (\<lambda>x. x\<lparr>result := res, reason := Some ''curl-done''\<rparr>)
        (downloadPushProgressItem d (emit (PerformEnd d res) ?s2))))"
    by (simp add: curlThread_job_def assms(1) Let_def)
  from worker_frame_perform[of d ?s1 cbs]
  obtain evs where f: "trace ?s2 = trace ?s1 @ evs" "list_all transfer_event evs"
    "progressQueue ?s2 = progressQueue ?s1 @ pushed evs"
    "\<And>pre. covered pre (currentProgressItem (mem ?s1 d)) \<Longrightarrow>
            covered (pre @ evs) (currentProgressItem (mem ?s2 d))"
    unfolding worker_frame_def by blast
  let ?before = "PerformStart d # evs @ PerformEnd d res # map PushProgress ?fl"
  let ?after = "frees (progressRecycleQueue ?s2)"
  have 1: "trace ?s2 = trace s @ PerformStart d # evs" by (simp add: f(1))
  have 2: "trace ?s' = trace s @ ?before @ PushResult d # ?after"
    using assms(2) by (simp add: job f(1))
  have 3: "PushResult d \<notin> set ?before"
    using transfer_event_control(1)[OF f(2), of d] by auto
  have "covered [] (currentProgressItem (mem ?s1 d))"
    using assms(3) by (simp add: covered_def)
  from f(4)[OF this] have "covered evs (currentProgressItem (mem ?s2 d))" by simp
  then have 4: "set (copied ?before) \<subseteq> chunk ` set (pushed ?before)"
    by (simp add: covered_def flushed_chunk image_Un)
  have 5: "progressQueue ?s' = progressQueue s @ pushed ?before"
    by (simp add: job f(3))
  have 6: "currentProgressItem (mem ?s' d) = None"
    by (simp add: job downloadPushProgressItem_clears)
  have 7: "result (mem ?s' d) = res" by (simp add: job)
  show ?thesis
    apply (rule exI[where x = evs], rule exI[where x = "?before"], rule exI[where x = "?after"])
    apply (intro conjI)
    apply (rule 1, rule refl, rule 2, rule 3, rule 4, rule 5, rule 6)
    apply (rule pushed_frees, rule copied_frees, rule 7)
    done
qed

text \<open>
  C7. With the flush in place, every byte of the transfer should be in the progress
  queue when the completion record is pushed. It is not: when a segment crosses the end of
  the chunk, the worker copies the part that fits, then moves its read position forward
  by the length that remains instead of the length it copied, and copies the rest from
  there. For the ninth buffer (16384 bytes, 100 of them fit) the two copies read the
  segment's bytes 0 to 99 and the 16284 bytes from position 16284 on, which runs past the
  end of the segment; bytes 100 to 16283 are the source of no copy, and the second copy
  writes behind the end of the buffer. The job then ends in the flush and the push of the
  completion record, for a chunk that does not hold these bytes.
\<close>

theorem transferred_bytes_not_copied:
  "drop (length (trace before_ninth))
     (trace (snd (onCURLDownloadSegment 1 16384 1 before_ninth)))
   = [Memcpy 4 130972 0 100, Memcpy 4 147356 16284 16284] \<and>
   filter (\<lambda>e. copied_source e 100)
     (drop (length (trace before_ninth))
        (trace (snd (onCURLDownloadSegment 1 16384 1 before_ninth)))) = [] \<and>
   filter (\<lambda>e. copied_source e 16283)
     (drop (length (trace before_ninth))
        (trace (snd (onCURLDownloadSegment 1 16384 1 before_ninth)))) = [] \<and>
   filter (\<lambda>e. \<not> copy_in_bounds e)
     (drop (length (trace before_ninth))
        (trace (snd (onCURLDownloadSegment 1 16384 1 before_ninth))))
   = [Memcpy 4 147356 16284 16284] \<and>
   drop (length (trace before_ninth) + 2)
     (trace (curlThread_job (\<lambda>d. Transfer (eight_uneven @ [WriteData 1 16384]) CURLE_OK) 1
        ((snd (DownloadNew request boot))\<lparr>jobQueue := []\<rparr>)))
   = [PerformEnd 1 CURLE_OK,
      PushProgress \<lparr>item_addr = 3, item_context = 1, chunk = 4, item_length = 163640,
                     item_bytesExpected = 0, item_bytesLoaded = 147356\<rparr>,
      PushResult 1]"
  by (simp add: before_ninth_def run_defs eight_uneven_def cong: let_weak_cong)

subsection \<open>Order of the jobs\<close>



subsection \<open>Completion after the chunks\<close>

text \<open>
  C1. The completion callback of a handle should be invoked only after every chunk of
  the handle has been drained. The poller does call it only on a zero counter, and the
  worker does push every chunk, counted, before the completion record; but the counter is
  changed by both threads without synchronisation. In the schedule \<open>lost_update\<close> the
  poller's decrement and the worker's increment both load 1, the worker stores 2 and the
  poller stores 0. The tick then finds the completion record with a zero counter: it
  invokes the completion callback and frees the handle while the handle's second chunk
  (buffer 6, 100 bytes) is still in the progress queue, its progress callback not
  invoked, and it returns false, which removes the timer.
\<close>

theorem completion_before_last_chunk:
  "map_option (\<lambda>(continue, s). (continue, filter is_callback (trace s), progressQueue s)) lost_update
   = Some (False,
           [ProgressCallback 1 4 131072 131072 0,
            CompleteCallback 1 CURLE_OK (Some ''curl-done'')],
           [\<lparr>item_addr = 5, item_context = 1, chunk = 6, item_length = 100,
             item_bytesExpected = 0, item_bytesLoaded = 131172\<rparr>])"
  by (simp add: lost_update_def split_defs run_defs eight_segments_def cong: let_weak_cong)

end
